theory Spec2Isabelle
  imports Complex_Main
begin

section \<open>The ellipse tracker of \<^verbatim>\<open>vpMeEllipse.h\<close>\<close>

text \<open>
  The class \<^verbatim>\<open>vpMeEllipse\<close> (a moving-edges tracker of an ellipse) is embedded as a
  record of its data members and one function per member function that the header
  defines inline. A C++ \<^verbatim>\<open>double\<close> is read as the real number it denotes; the inline
  functions only compare, copy and assign doubles, so no rounding takes place in them.
  A member function becomes a function from the object before the call to the object
  after it, paired with the value it returns when it returns one. A parameter of type
  \<^verbatim>\<open>double &\<close> is a reference: the model says what it designates, so that a call
  which passes the tracker's own members is a call of the model too.
\<close>

subsection \<open>Data members\<close>

text \<open>
  \<^verbatim>\<open>vpImagePoint\<close> is declared in \<^verbatim>\<open>visp/vpImagePoint.h\<close>; the tracker uses it as a
  pair of coordinates \<open>(i, j)\<close> of the image frame, read by \<^verbatim>\<open>get_i\<close> and \<^verbatim>\<open>get_j\<close>.
\<close>

record vpImagePoint =
  get_i :: real
  get_j :: real

text \<open>
  Modelled from the spec: \<^verbatim>\<open>vpMeSite\<close> (declared in \<^verbatim>\<open>visp/vpMeSite.h\<close>, which is
  not among the sources). The spec's data model: a site is a 2D position and a scalar
  reliability weight supplied by the external edge search; its parametric angle is kept
  by the tracker in the member \<^verbatim>\<open>angle\<close>.
\<close>

record vpMeSite =
  ifloat :: real
  jfloat :: real
  weight :: real

text \<open>
  The base class \<^verbatim>\<open>vpMeTracker\<close> (\<^verbatim>\<open>class vpMeEllipse : public vpMeTracker\<close>) owns the
  list of tracked sites that the documentation of \<^verbatim>\<open>setThresholdRobust\<close> refers to
  (``the list of tracked meSite'').
\<close>

record vpMeTracker =
  list :: "vpMeSite list"

text \<open>
  The data members of \<^verbatim>\<open>vpMeEllipse\<close>, in the order and under the names of the header
  (lines 306--347). \<open>K\<close> holds the five coefficients of
  \<open>i\<^sup>2 + K\<^sub>0 j\<^sup>2 + 2 K\<^sub>1 i j + 2 K\<^sub>2 i + 2 K\<^sub>3 j + K\<^sub>4 = 0\<close>.
\<close>

record vpMeEllipse = vpMeTracker +
  K :: "real list"
  iPc :: vpImagePoint
  a :: real
  b :: real
  e :: real
  iP1 :: vpImagePoint
  iP2 :: vpImagePoint
  alpha1 :: real
  alpha2 :: real
  ce :: real
  se :: real
  angle :: "real list"
  m00 :: real
  mu11 :: real
  mu20 :: real
  mu02 :: real
  m10 :: real
  m01 :: real
  m11 :: real
  m02 :: real
  m20 :: real
  thresholdWeight :: real
  circle :: bool

subsection \<open>Inline member functions\<close>

text \<open>\<^verbatim>\<open>void setCircle(bool circle) { this->circle = circle ; }\<close>\<close>

definition setCircle :: "bool \<Rightarrow> vpMeEllipse \<Rightarrow> vpMeEllipse" where
  "setCircle flag s = s\<lparr>circle := flag\<rparr>"

text \<open>
  The read accessors. Each returns the value read and the object after the call.
  \<^verbatim>\<open>inline double get_m00() const {return m00;}\<close> and so on.
\<close>

definition get_m00 :: "vpMeEllipse \<Rightarrow> real \<times> vpMeEllipse" where
  "get_m00 s = (m00 s, s)"

definition get_m10 :: "vpMeEllipse \<Rightarrow> real \<times> vpMeEllipse" where
  "get_m10 s = (m10 s, s)"

definition get_m01 :: "vpMeEllipse \<Rightarrow> real \<times> vpMeEllipse" where
  "get_m01 s = (m01 s, s)"

definition get_m11 :: "vpMeEllipse \<Rightarrow> real \<times> vpMeEllipse" where
  "get_m11 s = (m11 s, s)"

definition get_m20 :: "vpMeEllipse \<Rightarrow> real \<times> vpMeEllipse" where
  "get_m20 s = (m20 s, s)"

definition get_m02 :: "vpMeEllipse \<Rightarrow> real \<times> vpMeEllipse" where
  "get_m02 s = (m02 s, s)"

definition get_mu11 :: "vpMeEllipse \<Rightarrow> real \<times> vpMeEllipse" where
  "get_mu11 s = (mu11 s, s)"

definition get_mu02 :: "vpMeEllipse \<Rightarrow> real \<times> vpMeEllipse" where
  "get_mu02 s = (mu02 s, s)"

definition get_mu20 :: "vpMeEllipse \<Rightarrow> real \<times> vpMeEllipse" where
  "get_mu20 s = (mu20 s, s)"

definition getCenter :: "vpMeEllipse \<Rightarrow> vpImagePoint \<times> vpMeEllipse" where
  "getCenter s = (iPc s, s)"

definition getA :: "vpMeEllipse \<Rightarrow> real \<times> vpMeEllipse" where
  "getA s = (a s, s)"

definition getB :: "vpMeEllipse \<Rightarrow> real \<times> vpMeEllipse" where
  "getB s = (b s, s)"

definition getE :: "vpMeEllipse \<Rightarrow> real \<times> vpMeEllipse" where
  "getE s = (e s, s)"

text \<open>
  References to a \<^verbatim>\<open>double\<close>. The out-parameters of \<^verbatim>\<open>getEquationParam\<close> have type
  \<^verbatim>\<open>double &\<close>; what a caller binds to one is either a variable of its own or a
  \<^verbatim>\<open>double\<close> that the tracker stores. The header declares \<open>a\<close>, \<open>b\<close> and \<open>e\<close> (with \<open>K\<close>
  and \<open>iPc\<close>) public when \<^verbatim>\<open>VISP_BUILD_DEPRECATED_FUNCTIONS\<close> is defined (lines
  301--317), so that any client can write \<^verbatim>\<open>t.getEquationParam(t.b, t.a, t.e)\<close>; the
  other members are protected, within reach of a derived class. \<open>member\<close> names the
  doubles of the tracker, an entry of the vector \<open>K\<close> by its index; \<open>put\<close> is the
  assignment through a reference to one of them (a reference to an entry of \<open>K\<close>
  exists only for an index within the vector).
\<close>

datatype member =
  M_a | M_b | M_e | M_alpha1 | M_alpha2 | M_ce | M_se
  | M_m00 | M_mu11 | M_mu20 | M_mu02 | M_m10 | M_m01 | M_m11 | M_m02 | M_m20
  | M_thresholdWeight | M_K nat

fun put :: "member \<Rightarrow> real \<Rightarrow> vpMeEllipse \<Rightarrow> vpMeEllipse" where
  "put M_a v s = s\<lparr>a := v\<rparr>"
| "put M_b v s = s\<lparr>b := v\<rparr>"
| "put M_e v s = s\<lparr>e := v\<rparr>"
| "put M_alpha1 v s = s\<lparr>alpha1 := v\<rparr>"
| "put M_alpha2 v s = s\<lparr>alpha2 := v\<rparr>"
| "put M_ce v s = s\<lparr>ce := v\<rparr>"
| "put M_se v s = s\<lparr>se := v\<rparr>"
| "put M_m00 v s = s\<lparr>m00 := v\<rparr>"
| "put M_mu11 v s = s\<lparr>mu11 := v\<rparr>"
| "put M_mu20 v s = s\<lparr>mu20 := v\<rparr>"
| "put M_mu02 v s = s\<lparr>mu02 := v\<rparr>"
| "put M_m10 v s = s\<lparr>m10 := v\<rparr>"
| "put M_m01 v s = s\<lparr>m01 := v\<rparr>"
| "put M_m11 v s = s\<lparr>m11 := v\<rparr>"
| "put M_m02 v s = s\<lparr>m02 := v\<rparr>"
| "put M_m20 v s = s\<lparr>m20 := v\<rparr>"
| "put M_thresholdWeight v s = s\<lparr>thresholdWeight := v\<rparr>"
| "put (M_K n) v s = s\<lparr>K := (K s)[n := v]\<rparr>"

text \<open>
  The variables of the caller are numbered; \<open>frame\<close> gives each its value. A reference
  designates the caller's variable \<open>n\<close> (\<open>Var n\<close>) or a double of the tracker
  (\<open>Member m\<close>). \<open>assign r v\<close> is the assignment \<^verbatim>\<open>r = v\<close> on the pair of the caller's
  variables and the tracker.
\<close>

type_synonym frame = "nat \<Rightarrow> real"

datatype ref = Var nat | Member member

fun assign :: "ref \<Rightarrow> real \<Rightarrow> frame \<times> vpMeEllipse \<Rightarrow> frame \<times> vpMeEllipse" where
  "assign (Var n) v (vars, s) = (vars(n := v), s)"
| "assign (Member m) v (vars, s) = (vars, put m v s)"

text \<open>
  \<^verbatim>\<open>void getEquationParam(double &A, double &B, double &E) { A = a; B = b; E = e; }\<close>
  The function is not \<^verbatim>\<open>const\<close>. Its three assignments run in the order of the
  source, each reading its member from the object as the assignments before it left it.
\<close>

definition getEquationParam ::
  "ref \<Rightarrow> ref \<Rightarrow> ref \<Rightarrow> frame \<times> vpMeEllipse \<Rightarrow> frame \<times> vpMeEllipse" where
  "getEquationParam A B E st =
     (let st1 = assign A (a (snd st)) st;
          st2 = assign B (b (snd st1)) st1
      in assign E (e (snd st2)) st2)"

definition getSmallestAngle :: "vpMeEllipse \<Rightarrow> real \<times> vpMeEllipse" where
  "getSmallestAngle s = (alpha1 s, s)"

definition getHighestAngle :: "vpMeEllipse \<Rightarrow> real \<times> vpMeEllipse" where
  "getHighestAngle s = (alpha2 s, s)"

text \<open>
  \<^verbatim>\<open>void setThresholdRobust(const double threshold)\<close>, lines 289--297: the three
  branches in the order of the source.
\<close>

definition setThresholdRobust :: "real \<Rightarrow> vpMeEllipse \<Rightarrow> vpMeEllipse" where
  "setThresholdRobust threshold s =
     (if threshold < 0 then s\<lparr>thresholdWeight := 0\<rparr>
      else if threshold > 1 then s\<lparr>thresholdWeight := 1\<rparr>
      else s\<lparr>thresholdWeight := threshold\<rparr>)"

subsection \<open>Sequences of reads\<close>

text \<open>
  A caller may read in any order and any number of times: a list of accessors is one
  such sequence of calls, \<open>call\<close> gives the caller's variables and the object after one
  call and \<open>after_reads\<close> after the whole sequence. \<open>caller_owned r\<close> says that the
  reference \<open>r\<close> designates a variable of the caller, and \<open>outside\<close> that a call passes
  no reference to a double of the tracker.
\<close>

datatype accessor =
  Get_m00 | Get_m10 | Get_m01 | Get_m11 | Get_m20 | Get_m02
  | Get_mu11 | Get_mu02 | Get_mu20
  | GetCenter | GetA | GetB | GetE | GetEquationParam ref ref ref
  | GetSmallestAngle | GetHighestAngle

fun call :: "accessor \<Rightarrow> frame \<times> vpMeEllipse \<Rightarrow> frame \<times> vpMeEllipse" where
  "call Get_m00 (vars, s) = (vars, snd (get_m00 s))"
| "call Get_m10 (vars, s) = (vars, snd (get_m10 s))"
| "call Get_m01 (vars, s) = (vars, snd (get_m01 s))"
| "call Get_m11 (vars, s) = (vars, snd (get_m11 s))"
| "call Get_m20 (vars, s) = (vars, snd (get_m20 s))"
| "call Get_m02 (vars, s) = (vars, snd (get_m02 s))"
| "call Get_mu11 (vars, s) = (vars, snd (get_mu11 s))"
| "call Get_mu02 (vars, s) = (vars, snd (get_mu02 s))"
| "call Get_mu20 (vars, s) = (vars, snd (get_mu20 s))"
| "call GetCenter (vars, s) = (vars, snd (getCenter s))"
| "call GetA (vars, s) = (vars, snd (getA s))"
| "call GetB (vars, s) = (vars, snd (getB s))"
| "call GetE (vars, s) = (vars, snd (getE s))"
| "call (GetEquationParam A B E) (vars, s) = getEquationParam A B E (vars, s)"
| "call GetSmallestAngle (vars, s) = (vars, snd (getSmallestAngle s))"
| "call GetHighestAngle (vars, s) = (vars, snd (getHighestAngle s))"

fun after_reads :: "accessor list \<Rightarrow> frame \<times> vpMeEllipse \<Rightarrow> frame \<times> vpMeEllipse" where
  "after_reads [] st = st"
| "after_reads (r # rs) st = after_reads rs (call r st)"

fun caller_owned :: "ref \<Rightarrow> bool" where
  "caller_owned (Var n) = True"
| "caller_owned (Member m) = False"

fun outside :: "accessor \<Rightarrow> bool" where
  "outside (GetEquationParam A B E) = (caller_owned A \<and> caller_owned B \<and> caller_owned E)"
| "outside r = True"

section \<open>The robust conic fit\<close>

text \<open>
  The header declares \<^verbatim>\<open>initTracking\<close>, \<^verbatim>\<open>leastSquare\<close> and \<^verbatim>\<open>suppressPoints\<close> (lines
  151--153, 352 and 354); their bodies are not among the sources. This section models
  them from the spec (its section 4.2, the conic estimator, and the initialisation of
  section 4.7). A function that may fail returns \<open>error + 'a\<close>, with \<open>Inl\<close> for the
  failure.
\<close>

text \<open>
  Modelled from the spec: the kinds of failure of its section 7 (the exception type of
  the library is not among the sources).
\<close>

datatype error = InsufficientPointsError | DegenerateGeometryError | TrackingLostError

text \<open>
  Modelled from the spec: the parts of the estimator that the spec names but leaves
  open, and the collaborators outside the core. The solver of the weighted linear
  system (five unknowns, or three in circle mode, where \<open>K\<^sub>0 = 1\<close> and \<open>K\<^sub>1 = 0\<close>),
  the robust weight function (from the residuals of all sites and the residual of one
  site to its weight), the iteration cap, the epsilon under which the weights count as
  stable, the test for near-collinear input, and the sampler that populates the site
  list after a successful initial fit. Every statement below holds for each choice.
\<close>

record design =
  solveEllipse :: "(vpMeSite \<times> real) list \<Rightarrow> real \<times> real \<times> real \<times> real \<times> real"
  solveCircle :: "(vpMeSite \<times> real) list \<Rightarrow> real \<times> real \<times> real"
  robust :: "real list \<Rightarrow> real \<Rightarrow> real"
  cap :: nat
  epsilon :: real
  nearCollinear :: "vpMeSite list \<Rightarrow> bool"
  populate :: "vpMeEllipse \<Rightarrow> vpMeEllipse"

text \<open>
  Modelled from the spec: the minimum number of distinct points, ``5 for ellipse, 3 for
  circle''.
\<close>

definition minPoints :: "bool \<Rightarrow> nat" where
  "minPoints circ = (if circ then 3 else 5)"

text \<open>
  Modelled from the spec: ``distinct points''. The position of a site, and the number
  of distinct positions in a list of sites.
\<close>

definition position :: "vpMeSite \<Rightarrow> real \<times> real" where
  "position p = (ifloat p, jfloat p)"

definition nbDistinct :: "vpMeSite list \<Rightarrow> nat" where
  "nbDistinct ps = length (remdups (map position ps))"

text \<open>
  Modelled from the spec: the residual of a site is the value of the implicit equation
  \<open>i\<^sup>2 + K\<^sub>0 j\<^sup>2 + 2 K\<^sub>1 i j + 2 K\<^sub>2 i + 2 K\<^sub>3 j + K\<^sub>4\<close> at its position. The
  coefficient vectors it is applied to come from \<open>fit\<close> and have five entries.
\<close>

definition residual :: "real list \<Rightarrow> vpMeSite \<Rightarrow> real" where
  "residual k p =
     (ifloat p)\<^sup>2 + k ! 0 * (jfloat p)\<^sup>2 + 2 * k ! 1 * ifloat p * jfloat p
       + 2 * k ! 2 * ifloat p + 2 * k ! 3 * jfloat p + k ! 4"

text \<open>
  Modelled from the spec: one weighted least-squares fit over the active sites, each
  paired with its current weight, ``reduced form in circle mode''.
\<close>

definition fit :: "design \<Rightarrow> bool \<Rightarrow> (vpMeSite \<times> real) list \<Rightarrow> real list" where
  "fit d circ sw =
     (if circ then (case solveCircle d sw of (k2, k3, k4) \<Rightarrow> [1, 0, k2, k3, k4])
      else (case solveEllipse d sw of (k0, k1, k2, k3, k4) \<Rightarrow> [k0, k1, k2, k3, k4]))"

text \<open>
  Modelled from the spec: ``after each fit, per-site residual is converted to a weight
  via a robust weight function''. \<open>fitWeight d k sw p\<close> is the weight of the site \<open>p\<close>
  after a fit \<open>k\<close> over the weighted sites \<open>sw\<close>, and \<open>reweigh\<close> gives every site of
  \<open>sw\<close> its new weight.
\<close>

definition fitWeight :: "design \<Rightarrow> real list \<Rightarrow> (vpMeSite \<times> real) list \<Rightarrow> vpMeSite \<Rightarrow> real" where
  "fitWeight d k sw p = robust d (map (\<lambda>(q, w). residual k q) sw) (residual k p)"

definition reweigh :: "design \<Rightarrow> real list \<Rightarrow> (vpMeSite \<times> real) list \<Rightarrow> (vpMeSite \<times> real) list" where
  "reweigh d k sw = map (\<lambda>(p, w). (p, fitWeight d k sw p)) sw"

text \<open>
  Modelled from the spec: \<^verbatim>\<open>suppressPoints\<close>. ``Any site whose weight falls below
  RejectionThreshold is flagged and permanently excluded from the active set''; the
  header's documentation of \<^verbatim>\<open>setThresholdRobust\<close> says the same (``if the weight of a
  point is below this threshold, this one is removed from the list of tracked meSite'').
\<close>

definition suppressPoints :: "real \<Rightarrow> (vpMeSite \<times> real) list \<Rightarrow> (vpMeSite \<times> real) list" where
  "suppressPoints thr sw = filter (\<lambda>(p, w). \<not> w < thr) sw"

text \<open>
  Modelled from the spec: ``the loop stops when weights stabilize (change below a small
  epsilon)''. The weights before and after the re-weighting belong to the same sites.
\<close>

definition weightsStable :: "real \<Rightarrow> (vpMeSite \<times> real) list \<Rightarrow> (vpMeSite \<times> real) list \<Rightarrow> bool" where
  "weightsStable eps sw sw' = list_all2 (\<lambda>(p, w) (q, w'). \<bar>w' - w\<bar> < eps) sw sw'"

text \<open>
  Modelled from the spec: the re-weighting loop of \<^verbatim>\<open>leastSquare\<close>. The first argument
  after the threshold counts the iterations the cap still allows; at 0 the cap is
  reached and the last fit stands. An iteration fits, re-weights and suppresses; it
  fails when fewer than the minimum of distinct points remain, stops when the weights
  are stable, and otherwise goes on with the sites it kept.
\<close>

primrec iterate ::
  "design \<Rightarrow> bool \<Rightarrow> real \<Rightarrow> nat \<Rightarrow> real list \<Rightarrow> (vpMeSite \<times> real) list
     \<Rightarrow> error + (real list \<times> (vpMeSite \<times> real) list)" where
  "iterate d circ thr 0 k sw = Inr (k, sw)"
| "iterate d circ thr (Suc n) k sw =
     (let k' = fit d circ sw;
          sw' = reweigh d k' sw;
          kept = suppressPoints thr sw'
      in if nbDistinct (map fst kept) < minPoints circ then Inl InsufficientPointsError
         else if weightsStable (epsilon d) sw sw' then Inr (k', kept)
         else iterate d circ thr n k' kept)"

text \<open>
  Modelled from the spec: ``fails with DegenerateGeometryError if the resulting
  coefficients do not describe a real ellipse (non-positive discriminant, or
  near-collinear input)''. The discriminant of the implicit equation is \<open>K\<^sub>0 - K\<^sub>1\<^sup>2\<close>.
\<close>

definition degenerate :: "design \<Rightarrow> real list \<Rightarrow> vpMeSite list \<Rightarrow> bool" where
  "degenerate d k ps = (k ! 0 - (k ! 1)\<^sup>2 \<le> 0 \<or> nearCollinear d ps)"

text \<open>
  Modelled from the spec: \<^verbatim>\<open>leastSquare\<close>, the conic estimator. Input: the active sites
  (position and weight), the rejection threshold and the mode flag of the tracker.
  It fails when fewer than the minimum of distinct points are there before the
  iteration; the first fit is weighted by the weights of the edge search (\<open>weighted\<close>
  pairs each site with that weight). Output: the tracker with the new \<open>K\<close> and the
  sites that were not suppressed.
\<close>

definition weighted :: "vpMeSite list \<Rightarrow> (vpMeSite \<times> real) list" where
  "weighted ps = map (\<lambda>p. (p, weight p)) ps"

definition leastSquare :: "design \<Rightarrow> vpMeEllipse \<Rightarrow> error + vpMeEllipse" where
  "leastSquare d s =
     (if nbDistinct (list s) < minPoints (circle s) then Inl InsufficientPointsError
      else
        case iterate d (circle s) (thresholdWeight s) (cap d) (K s) (weighted (list s)) of
          Inl err \<Rightarrow> Inl err
        | Inr (k, sw) \<Rightarrow>
            if degenerate d k (map fst sw) then Inl DegenerateGeometryError
            else Inr (s\<lparr>list := map fst sw, K := k\<rparr>))"

text \<open>
  Modelled from the spec: \<^verbatim>\<open>initTracking(I, n, iP)\<close>. Initialisation ``consumes an
  externally supplied ordered sequence of points, performs an initial least-squares
  fit, then runs the sampler to populate the full active site set; on failure it
  reports the error''. The \<open>n\<close> points of \<open>iP\<close> become sites of weight 1.
\<close>

definition site :: "vpImagePoint \<Rightarrow> vpMeSite" where
  "site pt = \<lparr> ifloat = get_i pt, jfloat = get_j pt, weight = 1 \<rparr>"

definition initTracking :: "design \<Rightarrow> vpImagePoint list \<Rightarrow> vpMeEllipse \<Rightarrow> error + vpMeEllipse" where
  "initTracking d iP s =
     (case leastSquare d (s\<lparr>list := map site iP\<rparr>) of
        Inl err \<Rightarrow> Inl err
      | Inr s' \<Rightarrow> Inr (populate d s'))"

text \<open>
  Two notions to state what the loop does over time, both defined from the model
  above. \<open>iteration\<close> is what one round of \<open>iterate\<close> keeps: the fit, the re-weighting
  and the suppression. \<open>activeAt d circ thr m sw\<close> is the active set after \<open>m\<close> rounds
  from \<open>sw\<close>, the one that round \<open>m\<close> (counted from 0) starts from, when the loop
  gets that far.
\<close>

definition iteration :: "design \<Rightarrow> bool \<Rightarrow> real \<Rightarrow> (vpMeSite \<times> real) list \<Rightarrow> (vpMeSite \<times> real) list" where
  "iteration d circ thr sw = suppressPoints thr (reweigh d (fit d circ sw) sw)"

primrec activeAt :: "design \<Rightarrow> bool \<Rightarrow> real \<Rightarrow> nat \<Rightarrow> (vpMeSite \<times> real) list \<Rightarrow> (vpMeSite \<times> real) list" where
  "activeAt d circ thr 0 sw = sw"
| "activeAt d circ thr (Suc m) sw = activeAt d circ thr m (iteration d circ thr sw)"

text \<open>
  \<open>reaches d circ thr m sw\<close>: started on \<open>sw\<close>, the loop runs \<open>m\<close> full iterations
  without failing or stopping, so that (the cap allowing) it starts another one on
  \<open>activeAt d circ thr m sw\<close>.
\<close>

primrec reaches :: "design \<Rightarrow> bool \<Rightarrow> real \<Rightarrow> nat \<Rightarrow> (vpMeSite \<times> real) list \<Rightarrow> bool" where
  "reaches d circ thr 0 sw = True"
| "reaches d circ thr (Suc m) sw =
     (\<not> nbDistinct (map fst (iteration d circ thr sw)) < minPoints circ
      \<and> \<not> weightsStable (epsilon d) sw (reweigh d (fit d circ sw) sw)
      \<and> reaches d circ thr m (iteration d circ thr sw))"

section \<open>Values to evaluate the model on\<close>

text \<open>A tracker value to evaluate the model on: the unit circle, nothing tracked yet.\<close>

definition unit_tracker :: vpMeEllipse where
  "unit_tracker =
     \<lparr> list = [],
       K = [1, 0, 0, 0, - 1],
       iPc = \<lparr> get_i = 0, get_j = 0 \<rparr>,
       a = 1, b = 1, e = 0,
       iP1 = \<lparr> get_i = 1, get_j = 0 \<rparr>,
       iP2 = \<lparr> get_i = 1, get_j = 0 \<rparr>,
       alpha1 = 0, alpha2 = 0,
       ce = 1, se = 0,
       angle = [],
       m00 = 0, mu11 = 0, mu20 = 0, mu02 = 0,
       m10 = 0, m01 = 0, m11 = 0, m02 = 0, m20 = 0,
       thresholdWeight = 1 / 5,
       circle = False \<rparr>"

text \<open>
  An ellipse of semi-axes 30 and 50, and a caller whose variables are all 0, to
  evaluate the accessors on.
\<close>

definition ellipse_30_50 :: vpMeEllipse where
  "ellipse_30_50 = unit_tracker\<lparr>a := 30, b := 50\<rparr>"

definition no_vars :: frame where
  "no_vars = (\<lambda>n. 0)"

text \<open>
  Values to evaluate the estimator on. Five sites lie on the unit circle; \<open>mild\<close> at
  \<open>(2, 0)\<close> has residual 3 and \<open>outlier\<close> at \<open>(2, 2)\<close> has residual 7 against the unit
  circle. The solver answers with the unit circle. The weight function scales by the
  largest residual in absolute value: a site gets weight 1 when twice its residual
  does not exceed it, and 0 otherwise. So the first iteration suppresses \<open>outlier\<close>
  only, and the second one \<open>mild\<close>.
\<close>

definition unit_design :: design where
  "unit_design =
     \<lparr> solveEllipse = (\<lambda>sw. (1, 0, 0, 0, - 1)),
       solveCircle = (\<lambda>sw. (0, 0, - 1)),
       robust = (\<lambda>rs r. if 2 * \<bar>r\<bar> \<le> fold max (map abs rs) 0 then 1 else 0),
       cap = 4,
       epsilon = 1 / 100,
       nearCollinear = (\<lambda>ps. False),
       populate = (\<lambda>s. s) \<rparr>"

definition on_circle :: "vpMeSite list" where
  "on_circle =
     [\<lparr> ifloat = 1, jfloat = 0, weight = 1 \<rparr>,
      \<lparr> ifloat = 0, jfloat = 1, weight = 1 \<rparr>,
      \<lparr> ifloat = - 1, jfloat = 0, weight = 1 \<rparr>,
      \<lparr> ifloat = 0, jfloat = - 1, weight = 1 \<rparr>,
      \<lparr> ifloat = 3 / 5, jfloat = 4 / 5, weight = 1 \<rparr>]"

definition mild :: vpMeSite where
  "mild = \<lparr> ifloat = 2, jfloat = 0, weight = 1 \<rparr>"

definition outlier :: vpMeSite where
  "outlier = \<lparr> ifloat = 2, jfloat = 2, weight = 1 \<rparr>"

text \<open>In ellipse mode: seven sites, of which the five on the circle survive.\<close>

definition noisy_tracker :: vpMeEllipse where
  "noisy_tracker = unit_tracker\<lparr>list := on_circle @ [mild, outlier]\<rparr>"

definition fitted_tracker :: vpMeEllipse where
  "fitted_tracker = noisy_tracker\<lparr>list := on_circle, K := [1, 0, 0, 0, - 1]\<rparr>"

text \<open>
  In circle mode: four sites, three of them left after the first iteration and two
  after the second.
\<close>

definition pinched_tracker :: vpMeEllipse where
  "pinched_tracker = setCircle True (unit_tracker\<lparr>list := take 2 on_circle @ [mild, outlier]\<rparr>)"

definition four_points :: "vpImagePoint list" where
  "four_points =
     [\<lparr> get_i = 1, get_j = 0 \<rparr>, \<lparr> get_i = 0, get_j = 1 \<rparr>,
      \<lparr> get_i = - 1, get_j = 0 \<rparr>, \<lparr> get_i = 0, get_j = - 1 \<rparr>]"

section \<open>The rejection threshold\<close>

text \<open>
  Claim C1. For every real input \<open>t\<close>, after \<^verbatim>\<open>setThresholdRobust(t)\<close> the stored
  threshold lies in \<open>[0, 1]\<close>: it is 0 when \<open>t < 0\<close>, 1 when \<open>t > 1\<close>, and \<open>t\<close>
  otherwise. The function is total: every input is clamped, none is refused.
\<close>

theorem setThresholdRobust_clamps:
  "0 \<le> thresholdWeight (setThresholdRobust t s)
   \<and> thresholdWeight (setThresholdRobust t s) \<le> 1
   \<and> (t < 0 \<longrightarrow> thresholdWeight (setThresholdRobust t s) = 0)
   \<and> (1 < t \<longrightarrow> thresholdWeight (setThresholdRobust t s) = 1)
   \<and> (\<not> t < 0 \<and> \<not> 1 < t \<longrightarrow> thresholdWeight (setThresholdRobust t s) = t)"
proof (cases "t < 0")
  case True
  then show ?thesis by (simp add: setThresholdRobust_def)
next
  case low: False
  show ?thesis
  proof (cases "1 < t")
    case True
    with low show ?thesis by (simp add: setThresholdRobust_def)
  next
    case False
    with low show ?thesis by (simp add: setThresholdRobust_def)
  qed
qed

theorem setThresholdRobust_clamps_witness:
  "thresholdWeight (setThresholdRobust (- 3) unit_tracker) = 0
   \<and> thresholdWeight (setThresholdRobust 7 unit_tracker) = 1
   \<and> thresholdWeight (setThresholdRobust (1 / 4) unit_tracker) = 1 / 4"
proof -
  have below: "(- 3 :: real) < 0" by simp
  have above: "(1 :: real) < 7" by simp
  have inside: "\<not> (1 / 4 :: real) < 0 \<and> \<not> (1 :: real) < 1 / 4" by simp
  from setThresholdRobust_clamps [of "- 3" unit_tracker] below
  have "thresholdWeight (setThresholdRobust (- 3) unit_tracker) = 0" by blast
  moreover from setThresholdRobust_clamps [of 7 unit_tracker] above
  have "thresholdWeight (setThresholdRobust 7 unit_tracker) = 1" by blast
  moreover from setThresholdRobust_clamps [of "1 / 4" unit_tracker] inside
  have "thresholdWeight (setThresholdRobust (1 / 4) unit_tracker) = 1 / 4" by blast
  ultimately show ?thesis by blast
qed



section \<open>Read accessors\<close>

lemmas accessor_defs =
  get_m00_def get_m10_def get_m01_def get_m11_def get_m20_def get_m02_def
  get_mu11_def get_mu02_def get_mu20_def getCenter_def getA_def getB_def getE_def
  getSmallestAngle_def getHighestAngle_def

lemma getEquationParam_Var:
  "getEquationParam (Var x) (Var y) (Var z) (vars, s) = (vars(x := a s, y := b s, z := e s), s)"
  by (simp add: getEquationParam_def)

lemma getEquationParam_outside:
  assumes "caller_owned A" and "caller_owned B" and "caller_owned E"
  shows "snd (getEquationParam A B E (vars, s)) = s"
proof -
  from assms obtain x y z where "A = Var x" and "B = Var y" and "E = Var z"
    by (cases A; cases B; cases E) simp_all
  then show ?thesis by (simp add: getEquationParam_Var)
qed

lemma call_outside:
  assumes "outside r"
  shows "snd (call r (vars, s)) = s"
proof (cases r)
  case (GetEquationParam A B E)
  with assms show ?thesis by (simp add: getEquationParam_outside)
qed (simp_all add: accessor_defs)

lemma after_reads_outside:
  "list_all outside rs \<Longrightarrow> snd (after_reads rs (vars, s)) = s"
proof (induction rs arbitrary: vars)
  case Nil
  show ?case by simp
next
  case (Cons r rs)
  then have r: "outside r" and rs: "list_all outside rs" by simp_all
  obtain vars' s' where step: "call r (vars, s) = (vars', s')" by (cases "call r (vars, s)")
  from call_outside [OF r, of vars s] step have "s' = s" by simp
  with step Cons.IH [OF rs, of vars'] show ?case by simp
qed

lemma getEquationParam_values:
  assumes "x \<noteq> y" and "x \<noteq> z" and "y \<noteq> z"
  shows "fst (getEquationParam (Var x) (Var y) (Var z) (vars, s)) x = fst (getA s)
    \<and> fst (getEquationParam (Var x) (Var y) (Var z) (vars, s)) y = fst (getB s)
    \<and> fst (getEquationParam (Var x) (Var y) (Var z) (vars, s)) z = fst (getE s)"
  using assms by (simp add: getEquationParam_Var getA_def getB_def getE_def)

text \<open>
  Claim C9, as amended. Each of the fifteen accessors that return a value returns the
  member it names and leaves the whole tracker as it was. \<^verbatim>\<open>getEquationParam\<close> leaves
  the tracker as it was whenever none of its three out-parameters is bound to a double
  of the tracker itself; bound to three different variables of the caller, it leaves
  in them the values that \<^verbatim>\<open>getA\<close>, \<^verbatim>\<open>getB\<close> and \<^verbatim>\<open>getE\<close> return and changes no other
  variable. So does any sequence of reads that passes no reference to the tracker's
  own doubles.
\<close>

theorem read_accessors_snapshot:
  "get_m00 s = (m00 s, s) \<and> get_m10 s = (m10 s, s) \<and> get_m01 s = (m01 s, s)
   \<and> get_m11 s = (m11 s, s) \<and> get_m20 s = (m20 s, s) \<and> get_m02 s = (m02 s, s)
   \<and> get_mu11 s = (mu11 s, s) \<and> get_mu02 s = (mu02 s, s) \<and> get_mu20 s = (mu20 s, s)
   \<and> getCenter s = (iPc s, s) \<and> getA s = (a s, s) \<and> getB s = (b s, s)
   \<and> getE s = (e s, s)
   \<and> getSmallestAngle s = (alpha1 s, s) \<and> getHighestAngle s = (alpha2 s, s)
   \<and> (caller_owned A \<and> caller_owned B \<and> caller_owned E
        \<longrightarrow> snd (getEquationParam A B E (vars, s)) = s)
   \<and> getEquationParam (Var x) (Var y) (Var z) (vars, s)
        = (vars(x := a s, y := b s, z := e s), s)
   \<and> (x \<noteq> y \<and> x \<noteq> z \<and> y \<noteq> z
        \<longrightarrow> fst (getEquationParam (Var x) (Var y) (Var z) (vars, s)) x = fst (getA s)
          \<and> fst (getEquationParam (Var x) (Var y) (Var z) (vars, s)) y = fst (getB s)
          \<and> fst (getEquationParam (Var x) (Var y) (Var z) (vars, s)) z = fst (getE s))
   \<and> (list_all outside rs \<longrightarrow> snd (after_reads rs (vars, s)) = s)"
proof -
  have moments: "get_m00 s = (m00 s, s) \<and> get_m10 s = (m10 s, s) \<and> get_m01 s = (m01 s, s)
      \<and> get_m11 s = (m11 s, s) \<and> get_m20 s = (m20 s, s) \<and> get_m02 s = (m02 s, s)
      \<and> get_mu11 s = (mu11 s, s) \<and> get_mu02 s = (mu02 s, s) \<and> get_mu20 s = (mu20 s, s)"
    by (simp add: accessor_defs)
  have geometry: "getCenter s = (iPc s, s) \<and> getA s = (a s, s) \<and> getB s = (b s, s)
      \<and> getE s = (e s, s)
      \<and> getSmallestAngle s = (alpha1 s, s) \<and> getHighestAngle s = (alpha2 s, s)"
    by (simp add: accessor_defs)
  have unchanged: "caller_owned A \<and> caller_owned B \<and> caller_owned E
      \<longrightarrow> snd (getEquationParam A B E (vars, s)) = s"
    by (simp add: getEquationParam_outside)
  have handed: "getEquationParam (Var x) (Var y) (Var z) (vars, s)
      = (vars(x := a s, y := b s, z := e s), s)"
    by (rule getEquationParam_Var)
  have held: "x \<noteq> y \<and> x \<noteq> z \<and> y \<noteq> z
      \<longrightarrow> fst (getEquationParam (Var x) (Var y) (Var z) (vars, s)) x = fst (getA s)
        \<and> fst (getEquationParam (Var x) (Var y) (Var z) (vars, s)) y = fst (getB s)
        \<and> fst (getEquationParam (Var x) (Var y) (Var z) (vars, s)) z = fst (getE s)"
    by (simp add: getEquationParam_values)
  have sequence: "list_all outside rs \<longrightarrow> snd (after_reads rs (vars, s)) = s"
    by (rule impI) (rule after_reads_outside)
  from moments geometry unchanged handed held sequence show ?thesis
    by (simp only: simp_thms)
qed

lemma eval_ellipse_30_50: "a ellipse_30_50 = 30" "b ellipse_30_50 = 50" "e ellipse_30_50 = 0"
  by (simp_all add: ellipse_30_50_def unit_tracker_def)

theorem read_accessors_snapshot_witness:
  "snd (getEquationParam (Var 0) (Var 1) (Var 2) (no_vars, ellipse_30_50)) = ellipse_30_50
   \<and> fst (getEquationParam (Var 0) (Var 1) (Var 2) (no_vars, ellipse_30_50)) 0 = 30
   \<and> fst (getEquationParam (Var 0) (Var 1) (Var 2) (no_vars, ellipse_30_50)) 1 = 50
   \<and> fst (getEquationParam (Var 0) (Var 1) (Var 2) (no_vars, ellipse_30_50)) 2 = 0
   \<and> snd (after_reads [GetB, GetEquationParam (Var 0) (Var 1) (Var 2), Get_m00]
        (no_vars, ellipse_30_50)) = ellipse_30_50"
proof -
  note claim = read_accessors_snapshot [of ellipse_30_50 "Var 0" "Var 1" "Var 2" no_vars 0 1 2
      "[GetB, GetEquationParam (Var 0) (Var 1) (Var 2), Get_m00]"]
  have owned: "caller_owned (Var 0) \<and> caller_owned (Var 1) \<and> caller_owned (Var 2)"
    by simp
  have different: "(0 :: nat) \<noteq> 1 \<and> (0 :: nat) \<noteq> 2 \<and> (1 :: nat) \<noteq> 2"
    by simp
  have reads: "list_all outside [GetB, GetEquationParam (Var 0) (Var 1) (Var 2), Get_m00]"
    by simp
  from claim owned
  have unchanged: "snd (getEquationParam (Var 0) (Var 1) (Var 2) (no_vars, ellipse_30_50))
      = ellipse_30_50" by blast
  from claim different
  have "fst (getEquationParam (Var 0) (Var 1) (Var 2) (no_vars, ellipse_30_50)) 0
        = fst (getA ellipse_30_50)
      \<and> fst (getEquationParam (Var 0) (Var 1) (Var 2) (no_vars, ellipse_30_50)) 1
        = fst (getB ellipse_30_50)
      \<and> fst (getEquationParam (Var 0) (Var 1) (Var 2) (no_vars, ellipse_30_50)) 2
        = fst (getE ellipse_30_50)" by blast
  then have held: "fst (getEquationParam (Var 0) (Var 1) (Var 2) (no_vars, ellipse_30_50)) 0 = 30
      \<and> fst (getEquationParam (Var 0) (Var 1) (Var 2) (no_vars, ellipse_30_50)) 1 = 50
      \<and> fst (getEquationParam (Var 0) (Var 1) (Var 2) (no_vars, ellipse_30_50)) 2 = 0"
    by (simp add: getA_def getB_def getE_def eval_ellipse_30_50)
  from claim reads
  have sequence: "snd (after_reads [GetB, GetEquationParam (Var 0) (Var 1) (Var 2), Get_m00]
      (no_vars, ellipse_30_50)) = ellipse_30_50" by blast
  from unchanged held sequence show ?thesis by (simp only: simp_thms)
qed

text \<open>
  The claim as it was stated fails on the call \<^verbatim>\<open>t.getEquationParam(t.b, t.a, t.e)\<close>
  with \<open>a = 30\<close> and \<open>b = 50\<close>: \<^verbatim>\<open>A = a\<close> stores 30 in \<open>b\<close>, then \<^verbatim>\<open>B = b\<close> stores that 30
  in \<open>a\<close>. The tracker is changed, and the out-parameter \<open>B\<close> holds 30 where \<^verbatim>\<open>getB\<close>
  returned 50.
\<close>

theorem read_accessors_alias_counterexample:
  "fst (getB ellipse_30_50) = 50
   \<and> b (snd (getEquationParam (Member M_b) (Member M_a) (Member M_e) (no_vars, ellipse_30_50))) = 30
   \<and> a (snd (getEquationParam (Member M_b) (Member M_a) (Member M_e) (no_vars, ellipse_30_50))) = 30
   \<and> snd (getEquationParam (Member M_b) (Member M_a) (Member M_e) (no_vars, ellipse_30_50))
       \<noteq> ellipse_30_50"
proof -
  have after: "snd (getEquationParam (Member M_b) (Member M_a) (Member M_e) (no_vars, ellipse_30_50))
      = ellipse_30_50\<lparr>a := 30, b := 30\<rparr>"
    by (simp add: getEquationParam_def eval_ellipse_30_50)
  have changed: "ellipse_30_50\<lparr>a := 30, b := 30\<rparr> \<noteq> ellipse_30_50"
  proof
    assume "ellipse_30_50\<lparr>a := 30, b := 30\<rparr> = ellipse_30_50"
    then have "b (ellipse_30_50\<lparr>a := 30, b := 30\<rparr>) = b ellipse_30_50"
      by (rule arg_cong)
    then show False by (simp add: eval_ellipse_30_50)
  qed
  from after changed show ?thesis
    by (simp add: getB_def eval_ellipse_30_50)
qed

section \<open>The re-weighting loop\<close>

subsection \<open>One iteration and the active sets\<close>

lemma sites_suppressPoints: "set (suppressPoints thr sw) \<subseteq> set sw"
  by (auto simp: suppressPoints_def)

lemma fst_reweigh: "map fst (reweigh d k sw) = map fst sw"
  by (induction sw) (auto simp: reweigh_def)

lemma sites_iteration: "fst ` set (iteration d circ thr sw) \<subseteq> fst ` set sw"
proof -
  have "fst ` set (iteration d circ thr sw) \<subseteq> fst ` set (reweigh d (fit d circ sw) sw)"
    unfolding iteration_def using sites_suppressPoints by (metis image_mono)
  also have "\<dots> = set (map fst (reweigh d (fit d circ sw) sw))" by simp
  also have "\<dots> = fst ` set sw" by (simp only: fst_reweigh set_map)
  finally show ?thesis .
qed

lemma weight_reweigh:
  "(p, w) \<in> set (reweigh d k sw) \<Longrightarrow> w = fitWeight d k sw p"
  by (auto simp: reweigh_def)

lemma suppressed_absent:
  assumes "fitWeight d (fit d circ sw) sw p < thr"
  shows "p \<notin> fst ` set (iteration d circ thr sw)"
proof
  assume "p \<in> fst ` set (iteration d circ thr sw)"
  then obtain w where in_kept: "(p, w) \<in> set (iteration d circ thr sw)" by auto
  then have "(p, w) \<in> set (reweigh d (fit d circ sw) sw)" and "\<not> w < thr"
    by (auto simp: iteration_def suppressPoints_def)
  with weight_reweigh assms show False by blast
qed

lemma activeAt_add: "activeAt d circ thr (m + n) sw = activeAt d circ thr n (activeAt d circ thr m sw)"
  by (induction m arbitrary: sw) simp_all

lemma sites_activeAt: "fst ` set (activeAt d circ thr n sw) \<subseteq> fst ` set sw"
proof (induction n arbitrary: sw)
  case 0
  show ?case by simp
next
  case (Suc n)
  have "fst ` set (activeAt d circ thr (Suc n) sw) \<subseteq> fst ` set (iteration d circ thr sw)"
    unfolding activeAt.simps by (rule Suc.IH)
  also have "\<dots> \<subseteq> fst ` set sw" by (rule sites_iteration)
  finally show ?case .
qed

lemma sites_activeAt_later:
  "fst ` set (activeAt d circ thr (m + n) sw) \<subseteq> fst ` set (activeAt d circ thr m sw)"
  by (simp only: activeAt_add sites_activeAt)

lemma iterate_Suc:
  "iterate d circ thr (Suc n) k sw =
     (if nbDistinct (map fst (iteration d circ thr sw)) < minPoints circ
      then Inl InsufficientPointsError
      else if weightsStable (epsilon d) sw (reweigh d (fit d circ sw) sw)
      then Inr (fit d circ sw, iteration d circ thr sw)
      else iterate d circ thr n (fit d circ sw) (iteration d circ thr sw))"
  by (simp add: Let_def iteration_def)

lemma iterate_Suc_Inr:
  assumes "iterate d circ thr (Suc n) k sw = Inr r"
  shows "minPoints circ \<le> nbDistinct (map fst (iteration d circ thr sw))
    \<and> (r = (fit d circ sw, iteration d circ thr sw)
       \<or> iterate d circ thr n (fit d circ sw) (iteration d circ thr sw) = Inr r)"
proof -
  have enough: "\<not> nbDistinct (map fst (iteration d circ thr sw)) < minPoints circ"
  proof
    assume "nbDistinct (map fst (iteration d circ thr sw)) < minPoints circ"
    then have "iterate d circ thr (Suc n) k sw = Inl InsufficientPointsError"
      by (simp only: iterate_Suc if_True)
    with assms show False by simp
  qed
  show ?thesis
  proof (cases "weightsStable (epsilon d) sw (reweigh d (fit d circ sw) sw)")
    case True
    with enough have "iterate d circ thr (Suc n) k sw = Inr (fit d circ sw, iteration d circ thr sw)"
      by (simp only: iterate_Suc if_True if_False)
    with assms enough show ?thesis by simp
  next
    case False
    with enough have "iterate d circ thr (Suc n) k sw
        = iterate d circ thr n (fit d circ sw) (iteration d circ thr sw)"
      by (simp only: iterate_Suc if_False)
    with assms enough show ?thesis by simp
  qed
qed

lemma iterate_is_activeAt:
  "iterate d circ thr n k sw = Inr (k', sw') \<Longrightarrow> \<exists>m\<le>n. sw' = activeAt d circ thr m sw"
proof (induction n arbitrary: k sw)
  case 0
  then show ?case by simp
next
  case (Suc n)
  from iterate_Suc_Inr [OF Suc.prems]
  consider "sw' = iteration d circ thr sw"
    | "iterate d circ thr n (fit d circ sw) (iteration d circ thr sw) = Inr (k', sw')"
    by auto
  then show ?case
  proof cases
    case 1
    then have "sw' = activeAt d circ thr (Suc 0) sw" by simp
    then show ?thesis by blast
  next
    case 2
    from Suc.IH [OF this] obtain m
      where "m \<le> n" and "sw' = activeAt d circ thr m (iteration d circ thr sw)" by blast
    then have "Suc m \<le> Suc n" and "sw' = activeAt d circ thr (Suc m) sw" by simp_all
    then show ?thesis by blast
  qed
qed

lemma iterate_Suc_kept:
  assumes "iterate d circ thr (Suc n) k sw = Inr (k', sw')"
  shows "fst ` set sw' \<subseteq> fst ` set (iteration d circ thr sw)"
proof -
  from iterate_Suc_Inr [OF assms]
  consider "sw' = iteration d circ thr sw"
    | "iterate d circ thr n (fit d circ sw) (iteration d circ thr sw) = Inr (k', sw')"
    by auto
  then show ?thesis
  proof cases
    case 1
    then show ?thesis by simp
  next
    case 2
    from iterate_is_activeAt [OF this] sites_activeAt show ?thesis by blast
  qed
qed

lemma iterate_enough:
  "iterate d circ thr n k sw = Inr (k', sw') \<Longrightarrow> minPoints circ \<le> nbDistinct (map fst sw)
     \<Longrightarrow> minPoints circ \<le> nbDistinct (map fst sw')"
proof (induction n arbitrary: k sw)
  case 0
  then show ?case by simp
next
  case (Suc n)
  from iterate_Suc_Inr [OF Suc.prems(1)]
  have enough: "minPoints circ \<le> nbDistinct (map fst (iteration d circ thr sw))"
    and "sw' = iteration d circ thr sw
      \<or> iterate d circ thr n (fit d circ sw) (iteration d circ thr sw) = Inr (k', sw')"
    by auto
  then show ?case using Suc.IH by blast
qed

lemma leastSquare_Inr:
  assumes "leastSquare d s = Inr s'"
  shows "minPoints (circle s) \<le> nbDistinct (list s)
    \<and> (\<exists>k sw. iterate d (circle s) (thresholdWeight s) (cap d) (K s)
                  (weighted (list s)) = Inr (k, sw)
          \<and> s' = s\<lparr>list := map fst sw, K := k\<rparr>)"
proof -
  let ?run = "iterate d (circle s) (thresholdWeight s) (cap d) (K s) (weighted (list s))"
  have enough: "\<not> nbDistinct (list s) < minPoints (circle s)"
  proof
    assume "nbDistinct (list s) < minPoints (circle s)"
    then have "leastSquare d s = Inl InsufficientPointsError"
      by (simp add: leastSquare_def)
    with assms show False by simp
  qed
  show ?thesis
  proof (cases ?run)
    case (Inl err)
    with enough have "leastSquare d s = Inl err" by (simp add: leastSquare_def)
    with assms show ?thesis by simp
  next
    case (Inr r)
    obtain k sw where r: "r = (k, sw)" by (cases r)
    show ?thesis
    proof (cases "degenerate d k (map fst sw)")
      case True
      with enough Inr r have "leastSquare d s = Inl DegenerateGeometryError"
        by (simp add: leastSquare_def)
      with assms show ?thesis by simp
    next
      case False
      with enough Inr r have "leastSquare d s = Inr (s\<lparr>list := map fst sw, K := k\<rparr>)"
        by (simp add: leastSquare_def)
      with assms have "s' = s\<lparr>list := map fst sw, K := k\<rparr>" by simp
      with enough Inr r show ?thesis by simp
    qed
  qed
qed

lemma nbDistinct_length: "nbDistinct ps \<le> length ps"
proof -
  have "length (remdups (map position ps)) \<le> length (map position ps)"
    by (rule length_remdups_leq)
  then show ?thesis by (simp add: nbDistinct_def)
qed

lemma reaches_fail:
  "reaches d circ thr m sw \<Longrightarrow> m < n
   \<Longrightarrow> nbDistinct (map fst (iteration d circ thr (activeAt d circ thr m sw))) < minPoints circ
   \<Longrightarrow> iterate d circ thr n k sw = Inl InsufficientPointsError"
proof (induction m arbitrary: sw n k)
  case 0
  then obtain n' where "n = Suc n'" by (cases n) simp_all
  with "0.prems"(3) show ?case by (simp only: iterate_Suc activeAt.simps if_True)
next
  case (Suc m)
  from Suc.prems(2) obtain n' where n: "n = Suc n'" and less: "m < n'" by (cases n) simp_all
  from Suc.prems(1) have enough: "\<not> nbDistinct (map fst (iteration d circ thr sw)) < minPoints circ"
    and moving: "\<not> weightsStable (epsilon d) sw (reweigh d (fit d circ sw) sw)"
    and further: "reaches d circ thr m (iteration d circ thr sw)"
    by simp_all
  from Suc.prems(3)
  have "nbDistinct (map fst (iteration d circ thr (activeAt d circ thr m (iteration d circ thr sw))))
      < minPoints circ" by simp
  from Suc.IH [OF further less this]
  have "iterate d circ thr n' (fit d circ sw) (iteration d circ thr sw) = Inl InsufficientPointsError" .
  with enough moving show ?case unfolding n by (simp only: iterate_Suc if_False)
qed

lemma reaches_suppressed:
  "reaches d circ thr m sw \<Longrightarrow> m < n
   \<Longrightarrow> fitWeight d (fit d circ (activeAt d circ thr m sw)) (activeAt d circ thr m sw) p < thr
   \<Longrightarrow> iterate d circ thr n k sw = Inr (k', sw')
   \<Longrightarrow> p \<notin> fst ` set sw'"
proof (induction m arbitrary: sw n k)
  case 0
  then obtain n' where n: "n = Suc n'" by (cases n) simp_all
  from "0.prems"(4) have "fst ` set sw' \<subseteq> fst ` set (iteration d circ thr sw)"
    unfolding n by (rule iterate_Suc_kept)
  moreover from "0.prems"(3) have "p \<notin> fst ` set (iteration d circ thr sw)"
    by (simp add: suppressed_absent)
  ultimately show ?case by blast
next
  case (Suc m)
  from Suc.prems(2) obtain n' where n: "n = Suc n'" and less: "m < n'" by (cases n) simp_all
  from Suc.prems(1) have enough: "\<not> nbDistinct (map fst (iteration d circ thr sw)) < minPoints circ"
    and moving: "\<not> weightsStable (epsilon d) sw (reweigh d (fit d circ sw) sw)"
    and further: "reaches d circ thr m (iteration d circ thr sw)"
    by simp_all
  from enough moving have "iterate d circ thr (Suc n') k sw
      = iterate d circ thr n' (fit d circ sw) (iteration d circ thr sw)"
    by (simp only: iterate_Suc if_False)
  with Suc.prems(4) have run: "iterate d circ thr n' (fit d circ sw) (iteration d circ thr sw) = Inr (k', sw')"
    unfolding n by simp
  from Suc.prems(3)
  have "fitWeight d (fit d circ (activeAt d circ thr m (iteration d circ thr sw)))
          (activeAt d circ thr m (iteration d circ thr sw)) p < thr" by simp
  from Suc.IH [OF further less this run] show ?case .
qed

lemma fst_weighted: "map fst (weighted ps) = ps"
  by (induction ps) (simp_all add: weighted_def)

lemma leastSquare_sites:
  assumes "leastSquare d s = Inr s'"
  shows "set (list s') \<subseteq> set (list s)"
proof -
  from leastSquare_Inr [OF assms] obtain k sw
    where run: "iterate d (circle s) (thresholdWeight s) (cap d) (K s) (weighted (list s)) = Inr (k, sw)"
      and s': "s' = s\<lparr>list := map fst sw, K := k\<rparr>" by blast
  from iterate_is_activeAt [OF run] sites_activeAt
  have "fst ` set sw \<subseteq> fst ` set (weighted (list s))" by blast
  also have "\<dots> = set (map fst (weighted (list s)))" by simp
  also have "\<dots> = set (list s)" by (simp only: fst_weighted)
  finally show ?thesis by (simp add: s')
qed

lemma activeAt_Suc_right:
  "activeAt d circ thr (Suc m) sw = iteration d circ thr (activeAt d circ thr m sw)"
proof (induction m arbitrary: sw)
  case 0
  show ?case by simp
next
  case (Suc m)
  have "activeAt d circ thr (Suc (Suc m)) sw = activeAt d circ thr (Suc m) (iteration d circ thr sw)"
    by (simp only: activeAt.simps)
  also have "\<dots> = iteration d circ thr (activeAt d circ thr m (iteration d circ thr sw))"
    by (rule Suc.IH)
  also have "\<dots> = iteration d circ thr (activeAt d circ thr (Suc m) sw)"
    by (simp only: activeAt.simps)
  finally show ?case .
qed

lemma suppressed_later:
  assumes "fitWeight d (fit d circ (activeAt d circ thr m sw)) (activeAt d circ thr m sw) p < thr"
  shows "p \<notin> fst ` set (activeAt d circ thr (Suc (m + n)) sw)"
proof -
  from assms have "p \<notin> fst ` set (iteration d circ thr (activeAt d circ thr m sw))"
    by (rule suppressed_absent)
  then have "p \<notin> fst ` set (activeAt d circ thr (Suc m) sw)"
    unfolding activeAt_Suc_right .
  moreover have "fst ` set (activeAt d circ thr (Suc m + n) sw) \<subseteq> fst ` set (activeAt d circ thr (Suc m) sw)"
    by (rule sites_activeAt_later)
  ultimately show ?thesis by auto
qed

lemma leastSquare_suppressed:
  assumes ok: "leastSquare d s = Inr s'"
    and reach: "reaches d (circle s) (thresholdWeight s) m (weighted (list s))"
    and cap: "m < cap d"
    and low: "fitWeight d (fit d (circle s) (activeAt d (circle s) (thresholdWeight s) m (weighted (list s))))
                (activeAt d (circle s) (thresholdWeight s) m (weighted (list s))) p < thresholdWeight s"
  shows "p \<notin> set (list s')"
proof -
  from leastSquare_Inr [OF ok] obtain k sw
    where run: "iterate d (circle s) (thresholdWeight s) (cap d) (K s) (weighted (list s)) = Inr (k, sw)"
      and s': "s' = s\<lparr>list := map fst sw, K := k\<rparr>" by blast
  from reaches_suppressed [OF reach cap low run] have "p \<notin> fst ` set sw" .
  then show ?thesis by (simp add: s')
qed

lemma leastSquare_during:
  assumes reach: "reaches d (circle s) (thresholdWeight s) m (weighted (list s))"
    and cap: "m < cap d"
    and few: "nbDistinct (map fst (iteration d (circle s) (thresholdWeight s)
                (activeAt d (circle s) (thresholdWeight s) m (weighted (list s))))) < minPoints (circle s)"
  shows "leastSquare d s = Inl InsufficientPointsError"
proof (cases "nbDistinct (list s) < minPoints (circle s)")
  case True
  then show ?thesis by (simp add: leastSquare_def)
next
  case False
  from reaches_fail [OF reach cap few]
  have "iterate d (circle s) (thresholdWeight s) (cap d) (K s) (weighted (list s))
      = Inl InsufficientPointsError" .
  with False show ?thesis by (simp add: leastSquare_def)
qed

lemma leastSquare_enough:
  assumes "leastSquare d s = Inr s'"
  shows "minPoints (circle s') \<le> nbDistinct (list s')"
proof -
  from leastSquare_Inr [OF assms] obtain k sw
    where before: "minPoints (circle s) \<le> nbDistinct (list s)"
      and run: "iterate d (circle s) (thresholdWeight s) (cap d) (K s) (weighted (list s)) = Inr (k, sw)"
      and s': "s' = s\<lparr>list := map fst sw, K := k\<rparr>" by blast
  from before have "minPoints (circle s) \<le> nbDistinct (map fst (weighted (list s)))"
    by (simp only: fst_weighted)
  from iterate_enough [OF run this] show ?thesis by (simp add: s')
qed

lemma initTracking_fails:
  "leastSquare d (s\<lparr>list := map site iP\<rparr>) = Inl err \<Longrightarrow> initTracking d iP s = Inl err"
  by (simp add: initTracking_def)

lemma initTracking_few_distinct:
  assumes "nbDistinct (map site iP) < minPoints (circle s)"
  shows "initTracking d iP s = Inl InsufficientPointsError"
proof -
  from assms have "leastSquare d (s\<lparr>list := map site iP\<rparr>) = Inl InsufficientPointsError"
    by (simp add: leastSquare_def)
  then show ?thesis by (rule initTracking_fails)
qed

lemma initTracking_few:
  assumes "length iP < minPoints (circle s)"
  shows "initTracking d iP s = Inl InsufficientPointsError"
proof -
  have "nbDistinct (map site iP) \<le> length (map site iP)" by (rule nbDistinct_length)
  with assms have "nbDistinct (map site iP) < minPoints (circle s)" by simp
  then show ?thesis by (rule initTracking_few_distinct)
qed

subsection \<open>The model on the evaluation values\<close>

lemma eval_fit: "fit unit_design circ sw = [1, 0, 0, 0, - 1]"
  by (simp add: fit_def unit_design_def)

lemma eval_residual: "residual [1, 0, 0, 0, - 1] p = (ifloat p)\<^sup>2 + (jfloat p)\<^sup>2 - 1"
  by (simp add: residual_def)

lemma eval_robust:
  "robust unit_design rs r = (if 2 * \<bar>r\<bar> \<le> fold max (map abs rs) 0 then 1 else 0)"
  by (simp add: unit_design_def)

lemma eval_epsilon: "epsilon unit_design = 1 / 100" and eval_cap: "cap unit_design = 4"
  by (simp_all add: unit_design_def)

lemmas eval_sites = on_circle_def mild_def outlier_def

lemma eval_weighted:
  "weighted (ps @ [mild, outlier]) = weighted ps @ [(mild, 1), (outlier, 1)]"
  "weighted on_circle = map (\<lambda>p. (p, 1)) on_circle"
  "weighted (take 2 on_circle) = map (\<lambda>p. (p, 1)) (take 2 on_circle)"
  by (simp_all add: weighted_def eval_sites)

lemma eval_reweigh0:
  "reweigh unit_design [1, 0, 0, 0, - 1] (map (\<lambda>p. (p, 1)) on_circle @ [(mild, 1), (outlier, 1)])
     = map (\<lambda>p. (p, 1)) on_circle @ [(mild, 1), (outlier, 0)]"
  by (simp add: reweigh_def fitWeight_def eval_residual eval_robust eval_sites power2_eq_square)

lemma eval_reweigh1:
  "reweigh unit_design [1, 0, 0, 0, - 1] (map (\<lambda>p. (p, 1)) on_circle @ [(mild, 1)])
     = map (\<lambda>p. (p, 1)) on_circle @ [(mild, 0)]"
  by (simp add: reweigh_def fitWeight_def eval_residual eval_robust eval_sites power2_eq_square)

lemma eval_reweigh2:
  "reweigh unit_design [1, 0, 0, 0, - 1] (map (\<lambda>p. (p, 1)) on_circle)
     = map (\<lambda>p. (p, 1)) on_circle"
  by (simp add: reweigh_def fitWeight_def eval_residual eval_robust eval_sites power2_eq_square)

lemma eval_suppress:
  "suppressPoints (1 / 5) (map (\<lambda>p. (p, 1)) on_circle @ [(mild, 1), (outlier, 0)])
     = map (\<lambda>p. (p, 1)) on_circle @ [(mild, 1)]"
  "suppressPoints (1 / 5) (map (\<lambda>p. (p, 1)) on_circle @ [(mild, 0)]) = map (\<lambda>p. (p, 1)) on_circle"
  "suppressPoints (1 / 5) (map (\<lambda>p. (p, 1)) on_circle) = map (\<lambda>p. (p, 1)) on_circle"
  by (simp_all add: suppressPoints_def on_circle_def)

lemma eval_iteration:
  "iteration unit_design False (1 / 5) (map (\<lambda>p. (p, 1)) on_circle @ [(mild, 1), (outlier, 1)])
     = map (\<lambda>p. (p, 1)) on_circle @ [(mild, 1)]"
  "iteration unit_design False (1 / 5) (map (\<lambda>p. (p, 1)) on_circle @ [(mild, 1)])
     = map (\<lambda>p. (p, 1)) on_circle"
  "iteration unit_design False (1 / 5) (map (\<lambda>p. (p, 1)) on_circle) = map (\<lambda>p. (p, 1)) on_circle"
  by (simp_all only: iteration_def eval_fit eval_reweigh0 eval_reweigh1 eval_reweigh2 eval_suppress)

lemma eval_nbDistinct:
  "nbDistinct (map fst (map (\<lambda>p. (p, 1 :: real)) on_circle @ [(mild, 1)])) = 6"
  "nbDistinct (map fst (map (\<lambda>p. (p, 1 :: real)) on_circle)) = 5"
  "nbDistinct (on_circle @ [mild, outlier]) = 7"
  by (simp_all add: nbDistinct_def position_def eval_sites)

lemma eval_stable:
  "\<not> weightsStable (epsilon unit_design) (map (\<lambda>p. (p, 1)) on_circle @ [(mild, 1), (outlier, 1)])
        (map (\<lambda>p. (p, 1)) on_circle @ [(mild, 1), (outlier, 0)])"
  "\<not> weightsStable (epsilon unit_design) (map (\<lambda>p. (p, 1)) on_circle @ [(mild, 1)])
        (map (\<lambda>p. (p, 1)) on_circle @ [(mild, 0)])"
  "weightsStable (epsilon unit_design) (map (\<lambda>p. (p, 1)) on_circle) (map (\<lambda>p. (p, 1)) on_circle)"
  by (simp_all add: weightsStable_def eval_epsilon on_circle_def)

lemma eval_iterate:
  "iterate unit_design False (1 / 5) (Suc (Suc (Suc n))) k
       (map (\<lambda>p. (p, 1)) on_circle @ [(mild, 1), (outlier, 1)])
     = Inr ([1, 0, 0, 0, - 1], map (\<lambda>p. (p, 1)) on_circle)"
proof -
  have enough: "\<not> (6 :: nat) < minPoints False" "\<not> (5 :: nat) < minPoints False"
    by (simp_all add: minPoints_def)
  have "iterate unit_design False (1 / 5) (Suc (Suc (Suc n))) k
        (map (\<lambda>p. (p, 1)) on_circle @ [(mild, 1), (outlier, 1)])
      = iterate unit_design False (1 / 5) (Suc (Suc n)) [1, 0, 0, 0, - 1]
          (map (\<lambda>p. (p, 1)) on_circle @ [(mild, 1)])"
    using enough eval_stable
    by (simp only: iterate_Suc eval_iteration eval_fit eval_reweigh0 eval_nbDistinct if_False)
  also have "\<dots> = iterate unit_design False (1 / 5) (Suc n) [1, 0, 0, 0, - 1]
          (map (\<lambda>p. (p, 1)) on_circle)"
    using enough eval_stable
    by (simp only: iterate_Suc eval_iteration eval_fit eval_reweigh1 eval_nbDistinct if_False)
  also have "\<dots> = Inr ([1, 0, 0, 0, - 1], map (\<lambda>p. (p, 1)) on_circle)"
    using enough eval_stable
    by (simp only: iterate_Suc eval_iteration eval_fit eval_reweigh2 eval_nbDistinct if_False if_True)
  finally show ?thesis .
qed

lemma eval_noisy:
  "list noisy_tracker = on_circle @ [mild, outlier]" "circle noisy_tracker = False"
  "thresholdWeight noisy_tracker = 1 / 5"
  by (simp_all add: noisy_tracker_def unit_tracker_def)

lemma eval_leastSquare: "leastSquare unit_design noisy_tracker = Inr fitted_tracker"
proof -
  have cap: "cap unit_design = Suc (Suc (Suc 1))" by (simp add: unit_design_def)
  have enough: "\<not> nbDistinct (list noisy_tracker) < minPoints (circle noisy_tracker)"
    by (simp add: eval_noisy eval_nbDistinct minPoints_def)
  have sound: "\<not> degenerate unit_design [1, 0, 0, 0, - 1] on_circle"
    by (simp add: degenerate_def unit_design_def)
  have run: "iterate unit_design (circle noisy_tracker) (thresholdWeight noisy_tracker)
      (cap unit_design) (K noisy_tracker) (weighted (list noisy_tracker))
      = Inr ([1, 0, 0, 0, - 1], map (\<lambda>p. (p, 1)) on_circle)"
    by (simp only: eval_noisy cap eval_weighted eval_iterate)
  show ?thesis
    by (simp add: leastSquare_def run enough sound comp_def fitted_tracker_def)
qed

lemma eval_reaches:
  "reaches unit_design False (1 / 5) 1 (weighted (list noisy_tracker))"
proof -
  have one: "(1 :: nat) = Suc 0" by simp
  have enough: "\<not> (6 :: nat) < minPoints False" by (simp add: minPoints_def)
  show ?thesis
    unfolding one using enough eval_stable
    by (simp only: reaches.simps eval_noisy eval_weighted eval_iteration eval_fit eval_reweigh0
        eval_nbDistinct simp_thms)
qed

lemma eval_activeAt:
  "activeAt unit_design False (1 / 5) 1 (weighted (list noisy_tracker))
     = map (\<lambda>p. (p, 1)) on_circle @ [(mild, 1)]"
proof -
  have one: "(1 :: nat) = Suc 0" by simp
  show ?thesis
    unfolding one by (simp only: activeAt.simps eval_noisy eval_weighted eval_iteration)
qed

lemma eval_mild_weight:
  "fitWeight unit_design [1, 0, 0, 0, - 1] (map (\<lambda>p. (p, 1)) on_circle @ [(mild, 1)]) mild = 0"
  by (simp add: fitWeight_def eval_residual eval_robust eval_sites power2_eq_square)

lemma eval_outlier_weight:
  "fitWeight unit_design [1, 0, 0, 0, - 1]
     (map (\<lambda>p. (p, 1)) on_circle @ [(mild, 1), (outlier, 1)]) outlier = 0"
  by (simp add: fitWeight_def eval_residual eval_robust eval_sites power2_eq_square)

lemma eval_pinched:
  "list pinched_tracker = take 2 on_circle @ [mild, outlier]" "circle pinched_tracker = True"
  "thresholdWeight pinched_tracker = 1 / 5"
  by (simp_all add: pinched_tracker_def setCircle_def unit_tracker_def)

lemma eval_pinched_reweigh:
  "reweigh unit_design [1, 0, 0, 0, - 1] (map (\<lambda>p. (p, 1)) (take 2 on_circle) @ [(mild, 1), (outlier, 1)])
     = map (\<lambda>p. (p, 1)) (take 2 on_circle) @ [(mild, 1), (outlier, 0)]"
  "reweigh unit_design [1, 0, 0, 0, - 1] (map (\<lambda>p. (p, 1)) (take 2 on_circle) @ [(mild, 1)])
     = map (\<lambda>p. (p, 1)) (take 2 on_circle) @ [(mild, 0)]"
  by (simp_all add: reweigh_def fitWeight_def eval_residual eval_robust eval_sites power2_eq_square)

lemma eval_pinched_suppress:
  "suppressPoints (1 / 5) (map (\<lambda>p. (p, 1)) (take 2 on_circle) @ [(mild, 1), (outlier, 0)])
     = map (\<lambda>p. (p, 1)) (take 2 on_circle) @ [(mild, 1)]"
  "suppressPoints (1 / 5) (map (\<lambda>p. (p, 1)) (take 2 on_circle) @ [(mild, 0)])
     = map (\<lambda>p. (p, 1)) (take 2 on_circle)"
  by (simp_all add: suppressPoints_def on_circle_def)

lemma eval_pinched_iteration:
  "iteration unit_design True (1 / 5) (map (\<lambda>p. (p, 1)) (take 2 on_circle) @ [(mild, 1), (outlier, 1)])
     = map (\<lambda>p. (p, 1)) (take 2 on_circle) @ [(mild, 1)]"
  "iteration unit_design True (1 / 5) (map (\<lambda>p. (p, 1)) (take 2 on_circle) @ [(mild, 1)])
     = map (\<lambda>p. (p, 1)) (take 2 on_circle)"
  by (simp_all only: iteration_def eval_fit eval_pinched_reweigh eval_pinched_suppress)

lemma eval_pinched_nbDistinct:
  "nbDistinct (map fst (map (\<lambda>p. (p, 1 :: real)) (take 2 on_circle) @ [(mild, 1)])) = 3"
  "nbDistinct (map fst (map (\<lambda>p. (p, 1 :: real)) (take 2 on_circle))) = 2"
  by (simp_all add: nbDistinct_def position_def eval_sites)

lemma eval_pinched_stable:
  "\<not> weightsStable (epsilon unit_design)
        (map (\<lambda>p. (p, 1)) (take 2 on_circle) @ [(mild, 1), (outlier, 1)])
        (map (\<lambda>p. (p, 1)) (take 2 on_circle) @ [(mild, 1), (outlier, 0)])"
  by (simp add: weightsStable_def eval_epsilon on_circle_def)

lemma eval_pinched_reaches:
  "reaches unit_design True (1 / 5) 1 (weighted (list pinched_tracker))"
proof -
  have one: "(1 :: nat) = Suc 0" by simp
  have enough: "\<not> (3 :: nat) < minPoints True" by (simp add: minPoints_def)
  show ?thesis
    unfolding one using enough eval_pinched_stable
    by (simp only: reaches.simps eval_pinched eval_weighted eval_pinched_iteration eval_fit
        eval_pinched_reweigh eval_pinched_nbDistinct simp_thms)
qed

lemma eval_pinched_few:
  "nbDistinct (map fst (iteration unit_design True (1 / 5)
      (activeAt unit_design True (1 / 5) 1 (weighted (list pinched_tracker))))) < minPoints True"
proof -
  have one: "(1 :: nat) = Suc 0" by simp
  have few: "(2 :: nat) < minPoints True" by (simp add: minPoints_def)
  show ?thesis
    unfolding one using few
    by (simp only: activeAt.simps eval_pinched eval_weighted eval_pinched_iteration
        eval_pinched_nbDistinct)
qed

section \<open>Too few points\<close>

text \<open>
  Claim C3. Initialisation fails with \<open>InsufficientPointsError\<close> whenever fewer than
  the minimum of distinct points (5 in ellipse mode, 3 in circle mode) are supplied,
  and so does the fit whenever fewer are there before the iteration or remain after
  the suppression of an iteration that the loop runs; a fit that succeeds keeps at
  least the minimum. In particular, four points in ellipse mode are refused.
\<close>

theorem insufficient_points:
  "minPoints False = 5 \<and> minPoints True = 3
   \<and> (length iP < minPoints (circle s) \<longrightarrow> initTracking d iP s = Inl InsufficientPointsError)
   \<and> (nbDistinct (map site iP) < minPoints (circle s)
        \<longrightarrow> initTracking d iP s = Inl InsufficientPointsError)
   \<and> (length iP = 4 \<and> \<not> circle s \<longrightarrow> initTracking d iP s = Inl InsufficientPointsError)
   \<and> (nbDistinct (list s) < minPoints (circle s)
        \<longrightarrow> leastSquare d s = Inl InsufficientPointsError)
   \<and> (reaches d (circle s) (thresholdWeight s) m (weighted (list s)) \<and> m < cap d
        \<and> nbDistinct (map fst (iteration d (circle s) (thresholdWeight s)
              (activeAt d (circle s) (thresholdWeight s) m (weighted (list s)))))
            < minPoints (circle s)
        \<longrightarrow> leastSquare d s = Inl InsufficientPointsError)
   \<and> (leastSquare d (s\<lparr>list := map site iP\<rparr>) = Inl InsufficientPointsError
        \<longrightarrow> initTracking d iP s = Inl InsufficientPointsError)
   \<and> (leastSquare d s = Inr s' \<longrightarrow> minPoints (circle s') \<le> nbDistinct (list s'))"
proof -
  have ellipse: "minPoints False = 5" and circ: "minPoints True = 3"
    by (simp_all add: minPoints_def)
  have supplied: "length iP < minPoints (circle s)
      \<longrightarrow> initTracking d iP s = Inl InsufficientPointsError"
    by (rule impI) (rule initTracking_few)
  have distinct: "nbDistinct (map site iP) < minPoints (circle s)
      \<longrightarrow> initTracking d iP s = Inl InsufficientPointsError"
    by (rule impI) (rule initTracking_few_distinct)
  have four: "length iP = 4 \<and> \<not> circle s \<longrightarrow> initTracking d iP s = Inl InsufficientPointsError"
  proof
    assume "length iP = 4 \<and> \<not> circle s"
    then have "length iP < minPoints (circle s)" by (simp add: minPoints_def)
    then show "initTracking d iP s = Inl InsufficientPointsError" by (rule initTracking_few)
  qed
  have before: "nbDistinct (list s) < minPoints (circle s)
      \<longrightarrow> leastSquare d s = Inl InsufficientPointsError"
    by (simp add: leastSquare_def)
  have during: "reaches d (circle s) (thresholdWeight s) m (weighted (list s)) \<and> m < cap d
        \<and> nbDistinct (map fst (iteration d (circle s) (thresholdWeight s)
              (activeAt d (circle s) (thresholdWeight s) m (weighted (list s)))))
            < minPoints (circle s)
        \<longrightarrow> leastSquare d s = Inl InsufficientPointsError"
  proof
    assume h: "reaches d (circle s) (thresholdWeight s) m (weighted (list s)) \<and> m < cap d
        \<and> nbDistinct (map fst (iteration d (circle s) (thresholdWeight s)
              (activeAt d (circle s) (thresholdWeight s) m (weighted (list s)))))
            < minPoints (circle s)"
    show "leastSquare d s = Inl InsufficientPointsError"
      by (rule leastSquare_during [of d s m]) (simp_all only: h)
  qed
  have reported: "leastSquare d (s\<lparr>list := map site iP\<rparr>) = Inl InsufficientPointsError
        \<longrightarrow> initTracking d iP s = Inl InsufficientPointsError"
    by (rule impI) (rule initTracking_fails)
  have success: "leastSquare d s = Inr s' \<longrightarrow> minPoints (circle s') \<le> nbDistinct (list s')"
    by (rule impI) (rule leastSquare_enough)
  from ellipse circ supplied distinct four before during reported success
  show ?thesis by (intro conjI)
qed

theorem insufficient_points_witness:
  "initTracking unit_design four_points unit_tracker = Inl InsufficientPointsError
   \<and> leastSquare unit_design unit_tracker = Inl InsufficientPointsError
   \<and> leastSquare unit_design pinched_tracker = Inl InsufficientPointsError
   \<and> leastSquare unit_design noisy_tracker = Inr fitted_tracker
   \<and> minPoints (circle fitted_tracker) \<le> nbDistinct (list fitted_tracker)"
proof -
  have four: "length four_points = 4 \<and> \<not> circle unit_tracker"
    by (simp add: four_points_def unit_tracker_def)
  have none: "nbDistinct (list unit_tracker) < minPoints (circle unit_tracker)"
    by (simp add: unit_tracker_def nbDistinct_def minPoints_def)
  have allowed: "1 < cap unit_design"
    by (simp add: eval_cap)
  have during: "reaches unit_design (circle pinched_tracker) (thresholdWeight pinched_tracker) 1
        (weighted (list pinched_tracker)) \<and> 1 < cap unit_design
      \<and> nbDistinct (map fst (iteration unit_design (circle pinched_tracker)
            (thresholdWeight pinched_tracker)
            (activeAt unit_design (circle pinched_tracker) (thresholdWeight pinched_tracker) 1
               (weighted (list pinched_tracker)))))
          < minPoints (circle pinched_tracker)"
    using eval_pinched_reaches eval_pinched_few allowed
    by (simp only: eval_pinched(2,3) simp_thms)
  note fitted = eval_leastSquare
  from insufficient_points [of four_points unit_tracker unit_design] four
  have supplied: "initTracking unit_design four_points unit_tracker = Inl InsufficientPointsError"
    by blast
  from insufficient_points [of _ unit_tracker unit_design] none
  have before: "leastSquare unit_design unit_tracker = Inl InsufficientPointsError"
    by blast
  from insufficient_points [of _ pinched_tracker unit_design 1] during
  have second: "leastSquare unit_design pinched_tracker = Inl InsufficientPointsError"
    by blast
  from insufficient_points [of _ noisy_tracker unit_design _ fitted_tracker] fitted
  have kept: "minPoints (circle fitted_tracker) \<le> nbDistinct (list fitted_tracker)"
    by blast
  from supplied before second fitted kept show ?thesis by (intro conjI)
qed

section \<open>Suppression is permanent\<close>

text \<open>
  Claim C4. A site whose fit-derived weight is below the rejection threshold in some
  iteration is not in the active set of any later iteration, and not in the site list
  that the fit returns; the active sets only shrink from one iteration to the next, and
  the fit returns no site that it was not given, so that nothing in the estimator puts
  a suppressed site back.
\<close>

theorem suppression_permanent:
  "(fitWeight d (fit d circ sw) sw p < thr \<longrightarrow> p \<notin> fst ` set (iteration d circ thr sw))
   \<and> fst ` set (activeAt d circ thr (m + n) sw) \<subseteq> fst ` set (activeAt d circ thr m sw)
   \<and> (fitWeight d (fit d circ (activeAt d circ thr m sw)) (activeAt d circ thr m sw) p < thr
        \<longrightarrow> p \<notin> fst ` set (activeAt d circ thr (Suc (m + n)) sw))
   \<and> (leastSquare d s = Inr s'
        \<and> reaches d (circle s) (thresholdWeight s) m (weighted (list s)) \<and> m < cap d
        \<and> fitWeight d (fit d (circle s) (activeAt d (circle s) (thresholdWeight s) m (weighted (list s))))
              (activeAt d (circle s) (thresholdWeight s) m (weighted (list s))) p
            < thresholdWeight s
        \<longrightarrow> p \<notin> set (list s'))
   \<and> (leastSquare d s = Inr s' \<longrightarrow> set (list s') \<subseteq> set (list s))"
proof -
  have now: "fitWeight d (fit d circ sw) sw p < thr \<longrightarrow> p \<notin> fst ` set (iteration d circ thr sw)"
    by (rule impI) (rule suppressed_absent)
  have shrinking: "fst ` set (activeAt d circ thr (m + n) sw) \<subseteq> fst ` set (activeAt d circ thr m sw)"
    by (rule sites_activeAt_later)
  have later: "fitWeight d (fit d circ (activeAt d circ thr m sw)) (activeAt d circ thr m sw) p < thr
        \<longrightarrow> p \<notin> fst ` set (activeAt d circ thr (Suc (m + n)) sw)"
    by (rule impI) (rule suppressed_later)
  have returned: "leastSquare d s = Inr s'
        \<and> reaches d (circle s) (thresholdWeight s) m (weighted (list s)) \<and> m < cap d
        \<and> fitWeight d (fit d (circle s) (activeAt d (circle s) (thresholdWeight s) m (weighted (list s))))
              (activeAt d (circle s) (thresholdWeight s) m (weighted (list s))) p
            < thresholdWeight s
        \<longrightarrow> p \<notin> set (list s')"
  proof
    assume h: "leastSquare d s = Inr s'
        \<and> reaches d (circle s) (thresholdWeight s) m (weighted (list s)) \<and> m < cap d
        \<and> fitWeight d (fit d (circle s) (activeAt d (circle s) (thresholdWeight s) m (weighted (list s))))
              (activeAt d (circle s) (thresholdWeight s) m (weighted (list s))) p
            < thresholdWeight s"
    show "p \<notin> set (list s')"
      by (rule leastSquare_suppressed [of d s s' m p]) (simp_all only: h)
  qed
  have no_return: "leastSquare d s = Inr s' \<longrightarrow> set (list s') \<subseteq> set (list s)"
    by (rule impI) (rule leastSquare_sites)
  from now shrinking later returned no_return show ?thesis by (intro conjI)
qed

theorem suppression_permanent_witness:
  "leastSquare unit_design noisy_tracker = Inr fitted_tracker
   \<and> outlier \<in> set (list noisy_tracker) \<and> mild \<in> set (list noisy_tracker)
   \<and> outlier \<notin> set (list fitted_tracker) \<and> mild \<notin> set (list fitted_tracker)
   \<and> mild \<notin> fst ` set (activeAt unit_design False (1 / 5) 3 (weighted (list noisy_tracker)))"
proof -
  note fitted = eval_leastSquare
  have present: "outlier \<in> set (list noisy_tracker)" "mild \<in> set (list noisy_tracker)"
    by (simp_all add: eval_noisy)
  have allowed: "0 < cap unit_design" "1 < cap unit_design"
    by (simp_all add: eval_cap)
  have first: "leastSquare unit_design noisy_tracker = Inr fitted_tracker
      \<and> reaches unit_design (circle noisy_tracker) (thresholdWeight noisy_tracker) 0
          (weighted (list noisy_tracker)) \<and> 0 < cap unit_design
      \<and> fitWeight unit_design
          (fit unit_design (circle noisy_tracker)
             (activeAt unit_design (circle noisy_tracker) (thresholdWeight noisy_tracker) 0
                (weighted (list noisy_tracker))))
          (activeAt unit_design (circle noisy_tracker) (thresholdWeight noisy_tracker) 0
             (weighted (list noisy_tracker))) outlier
        < thresholdWeight noisy_tracker"
    using fitted allowed
    by (simp add: eval_noisy eval_fit eval_weighted eval_outlier_weight del: reaches.simps(2))
  have low: "fitWeight unit_design
        (fit unit_design False (activeAt unit_design False (1 / 5) 1 (weighted (list noisy_tracker))))
        (activeAt unit_design False (1 / 5) 1 (weighted (list noisy_tracker))) mild < 1 / 5"
    by (simp only: eval_activeAt eval_fit eval_mild_weight)
  have second: "leastSquare unit_design noisy_tracker = Inr fitted_tracker
      \<and> reaches unit_design (circle noisy_tracker) (thresholdWeight noisy_tracker) 1
          (weighted (list noisy_tracker)) \<and> 1 < cap unit_design
      \<and> fitWeight unit_design
          (fit unit_design (circle noisy_tracker)
             (activeAt unit_design (circle noisy_tracker) (thresholdWeight noisy_tracker) 1
                (weighted (list noisy_tracker))))
          (activeAt unit_design (circle noisy_tracker) (thresholdWeight noisy_tracker) 1
             (weighted (list noisy_tracker))) mild
        < thresholdWeight noisy_tracker"
    using fitted allowed eval_reaches low
    by (simp only: eval_noisy(2,3) simp_thms)
  from suppression_permanent [of unit_design _ _ outlier _ 0 _ noisy_tracker fitted_tracker] first
  have gone: "outlier \<notin> set (list fitted_tracker)"
    by blast
  from suppression_permanent [of unit_design _ _ mild _ 1 _ noisy_tracker fitted_tracker] second
  have gone_too: "mild \<notin> set (list fitted_tracker)"
    by blast
  have three: "(3::nat) = Suc (1 + 1)" by simp
  from suppression_permanent [of unit_design False "weighted (list noisy_tracker)" mild "1 / 5" 1 1] low
  have later: "mild \<notin> fst ` set (activeAt unit_design False (1 / 5) 3 (weighted (list noisy_tracker)))"
    unfolding three by blast
  from fitted present gone gone_too later show ?thesis by (intro conjI)
qed

end
